theory Spec2Isabelle
  imports Complex_Main
begin

section \<open>JavaScript values used by the plugin\<close>

text \<open>
  A JavaScript \<open>number\<close> is an IEEE 754 double: not-a-number, the two infinities, the two
  zeros and the finite non-zero values. \<open>Fin 0\<close> is the positive zero, \<open>NegZero\<close> the
  negative one; a finite value is carried as the rational it denotes.
\<close>

datatype number = NaN | PosInf | NegInf | NegZero | Fin rat

text \<open>ToBoolean on a number: \<open>+0\<close>, \<open>-0\<close> and \<open>NaN\<close> are falsy, everything else is truthy.\<close>

fun ToBoolean :: "number \<Rightarrow> bool" where
  "ToBoolean NaN = False"
| "ToBoolean NegZero = False"
| "ToBoolean (Fin r) = (r \<noteq> 0)"
| "ToBoolean PosInf = True"
| "ToBoolean NegInf = True"

text \<open>The test \<open>if (v)\<close> on a field of type \<open>number | null\<close>: \<open>null\<close> is falsy.\<close>

fun truthy :: "number option \<Rightarrow> bool" where
  "truthy None = False"
| "truthy (Some n) = ToBoolean n"

text \<open>
  The relational operator \<open>a >= b\<close> on numbers: false as soon as one side is \<open>NaN\<close>,
  the two zeros compare equal.
\<close>

fun js_ge :: "number \<Rightarrow> number \<Rightarrow> bool" where
  "js_ge NaN _ = False"
| "js_ge _ NaN = False"
| "js_ge PosInf _ = True"
| "js_ge _ NegInf = True"
| "js_ge NegInf _ = False"
| "js_ge _ PosInf = False"
| "js_ge NegZero NegZero = True"
| "js_ge NegZero (Fin b) = (0 \<ge> b)"
| "js_ge (Fin a) NegZero = (a \<ge> 0)"
| "js_ge (Fin a) (Fin b) = (a \<ge> b)"

text \<open>\<open>a >= b\<close> where \<open>b\<close> has type \<open>number | null\<close>: ToNumber turns \<open>null\<close> into \<open>+0\<close>.\<close>

fun ToNumber :: "number option \<Rightarrow> number" where
  "ToNumber None = Fin 0"
| "ToNumber (Some n) = n"

definition ge :: "number \<Rightarrow> number option \<Rightarrow> bool" where
  "ge a b = js_ge a (ToNumber b)"

text \<open>
  The expression \<open>c || d\<close> for \<open>c\<close> of type \<open>string | null\<close> and a string \<open>d\<close>:
  \<open>null\<close> and the empty string are falsy and give \<open>d\<close>.
\<close>

fun or_else :: "string option \<Rightarrow> string \<Rightarrow> string" where
  "or_else None d = d"
| "or_else (Some c) d = (if c = [] then d else c)"

subsection \<open>Double arithmetic\<close>

text \<open>
  \<open>num_digits b n\<close> is the number of digits of the positive integer \<open>n\<close> in base \<open>b\<close>,
  \<open>pow b e\<close> the power with an integer exponent, and \<open>floor_log b a\<close> the integer
  \<open>e\<close> with \<open>b^e \<le> a < b^(e+1)\<close> for a positive rational \<open>a\<close>.
\<close>

function num_digits :: "int \<Rightarrow> int \<Rightarrow> int" where
  "num_digits b n = (if n \<le> 0 \<or> b < 2 then 0 else 1 + num_digits b (n div b))"
  by pat_completeness auto
termination
  by (relation "measure (\<lambda>(b, n). nat n)") (auto intro: int_div_less_self)

declare num_digits.simps [simp del]

definition pow :: "rat \<Rightarrow> int \<Rightarrow> rat" where
  "pow b e = (if 0 \<le> e then b ^ nat e else 1 / b ^ nat (- e))"

definition floor_log :: "int \<Rightarrow> rat \<Rightarrow> int" where
  "floor_log b a =
    (if 1 \<le> a then num_digits b \<lfloor>a\<rfloor> - 1 else - num_digits b (\<lceil>1 / a\<rceil> - 1))"

definition round_half_even :: "rat \<Rightarrow> int" where
  "round_half_even q =
    (let f = \<lfloor>q\<rfloor>; d = q - of_int f
     in if d < 1 / 2 then f else if 1 / 2 < d then f + 1 else if even f then f else f + 1)"

text \<open>
  The double nearest to a rational, ties to the even significand: 53 significant bits,
  exponents from \<open>-1022\<close> (below which the spacing stays \<open>2^-1074\<close>) to \<open>1023\<close>
  (a result of \<open>2^1024\<close> or more is an infinity). A non-zero rational that rounds to zero
  keeps its sign.
\<close>

definition round_double :: "rat \<Rightarrow> number" where
  "round_double r =
    (if r = 0 then Fin 0
     else
       let a = \<bar>r\<bar>;
           e = max (floor_log 2 a) (- 1022);
           ulp = pow 2 (e - 52);
           v = of_int (round_half_even (a / ulp)) * ulp
       in if pow 2 1024 \<le> v then (if r < 0 then NegInf else PosInf)
          else if v = 0 then (if r < 0 then NegZero else Fin 0)
          else Fin (if r < 0 then - v else v))"

fun is_neg :: "number \<Rightarrow> bool" where
  "is_neg NegInf = True"
| "is_neg NegZero = True"
| "is_neg (Fin r) = (r < 0)"
| "is_neg _ = False"

fun is_zero :: "number \<Rightarrow> bool" where
  "is_zero NegZero = True"
| "is_zero (Fin r) = (r = 0)"
| "is_zero _ = False"

fun is_inf :: "number \<Rightarrow> bool" where
  "is_inf PosInf = True"
| "is_inf NegInf = True"
| "is_inf _ = False"

fun fin_val :: "number \<Rightarrow> rat" where
  "fin_val (Fin r) = r"
| "fin_val _ = 0"

definition signed_inf :: "bool \<Rightarrow> number" where
  "signed_inf neg = (if neg then NegInf else PosInf)"

definition signed_zero :: "bool \<Rightarrow> number" where
  "signed_zero neg = (if neg then NegZero else Fin 0)"

text \<open>The operators \<open>a * b\<close> and \<open>a / b\<close> on numbers.\<close>

definition js_mul :: "number \<Rightarrow> number \<Rightarrow> number" where
  "js_mul a b =
    (if a = NaN \<or> b = NaN then NaN
     else if (is_inf a \<and> is_zero b) \<or> (is_zero a \<and> is_inf b) then NaN
     else if is_inf a \<or> is_inf b then signed_inf (is_neg a \<noteq> is_neg b)
     else if is_zero a \<or> is_zero b then signed_zero (is_neg a \<noteq> is_neg b)
     else round_double (fin_val a * fin_val b))"

definition js_div :: "number \<Rightarrow> number \<Rightarrow> number" where
  "js_div a b =
    (if a = NaN \<or> b = NaN then NaN
     else if (is_inf a \<and> is_inf b) \<or> (is_zero a \<and> is_zero b) then NaN
     else if is_inf a then signed_inf (is_neg a \<noteq> is_neg b)
     else if is_inf b then signed_zero (is_neg a \<noteq> is_neg b)
     else if is_zero b then signed_inf (is_neg a \<noteq> is_neg b)
     else if is_zero a then signed_zero (is_neg a \<noteq> is_neg b)
     else round_double (fin_val a / fin_val b))"

text \<open>\<open>Math.min\<close> of two numbers: \<open>NaN\<close> wins, and \<open>-0\<close> is below \<open>+0\<close>.\<close>

definition Math_min :: "number \<Rightarrow> number \<Rightarrow> number" where
  "Math_min a b =
    (if a = NaN \<or> b = NaN then NaN
     else if js_ge a b then (if js_ge b a \<and> a = NegZero then a else b)
     else a)"

subsection \<open>A number as a string\<close>

definition digit :: "int \<Rightarrow> char" where
  "digit d = ''0123456789'' ! nat d"

function decimal :: "int \<Rightarrow> string" where
  "decimal n = (if n < 10 then [digit n] else decimal (n div 10) @ [digit (n mod 10)])"
  by pat_completeness auto
termination
  by (relation "measure nat") (auto intro: int_div_less_self)

declare decimal.simps [simp del]

text \<open>
  Number::toString looks for the fewest digits \<open>k\<close> and the integer \<open>s\<close> of \<open>k\<close>
  digits such that \<open>s * 10^(n-k)\<close> reads back as the number; among several \<open>s\<close> the one
  nearest to the number. \<open>shortest_at x n0 k\<close> tries \<open>k\<close> digits for \<open>10^(n0-1) \<le> x < 10^n0\<close>.
\<close>

definition shortest_at :: "rat \<Rightarrow> int \<Rightarrow> nat \<Rightarrow> int option" where
  "shortest_at x n0 k =
    (let sc = pow 10 (n0 - int k);
         lo = \<lfloor>x / sc\<rfloor>;
         hi = lo + 1;
         vlo = (round_double (of_int lo * sc) = Fin x);
         vhi = (round_double (of_int hi * sc) = Fin x);
         dlo = x - of_int lo * sc;
         dhi = of_int hi * sc - x
     in if vlo \<and> vhi then (if dlo < dhi then Some lo else if dhi < dlo then Some hi
                              else if even lo then Some lo else Some hi)
        else if vlo then Some lo
        else if vhi then Some hi
        else None)"

fun shortest_from :: "rat \<Rightarrow> int \<Rightarrow> nat \<Rightarrow> nat \<Rightarrow> int \<times> nat" where
  "shortest_from x n0 k 0 = (\<lfloor>x / pow 10 (n0 - int k)\<rfloor>, k)"
| "shortest_from x n0 k (Suc fuel) =
    (case shortest_at x n0 k of Some s \<Rightarrow> (s, k) | None \<Rightarrow> shortest_from x n0 (Suc k) fuel)"

text \<open>
  The digits are laid out plainly for \<open>-5 \<le> n \<le> 21\<close> and with an exponent otherwise.
  Seventeen digits always identify a double, so the search from one digit up to seventeen ends.
\<close>

definition positive_toString :: "rat \<Rightarrow> string" where
  "positive_toString x =
    (let n0 = floor_log 10 x + 1;
         (s0, k) = shortest_from x n0 1 17;
         (s, n) = (if s0 = 10 ^ k then (10 ^ (k - 1), n0 + 1) else (s0, n0));
         ds = decimal s
     in if - 5 \<le> n \<and> n \<le> 21 then
          (if int k \<le> n then ds @ replicate (nat (n - int k)) (CHR ''0'')
           else if 0 < n then take (nat n) ds @ ''.'' @ drop (nat n) ds
           else ''0.'' @ replicate (nat (- n)) (CHR ''0'') @ ds)
        else
          (let e = n - 1;
               es = (if e < 0 then ''-'' else ''+'') @ decimal \<bar>e\<bar>
           in if k = 1 then ds @ ''e'' @ es
              else take 1 ds @ ''.'' @ drop 1 ds @ ''e'' @ es))"

fun Number_toString :: "number \<Rightarrow> string" where
  "Number_toString NaN = ''NaN''"
| "Number_toString PosInf = ''Infinity''"
| "Number_toString NegInf = ''-Infinity''"
| "Number_toString NegZero = ''0''"
| "Number_toString (Fin r) =
    (if r = 0 then ''0'' else if r < 0 then ''-'' @ positive_toString (- r) else positive_toString r)"

subsection \<open>Percent-encoding\<close>

text \<open>
  A string is a list of code units, here those below 256. \<open>encodeURIComponent\<close> keeps the
  unreserved characters and writes every other one as the bytes of its UTF-8 encoding,
  each as \<open>%XX\<close>.
\<close>

definition unreserved :: "char \<Rightarrow> bool" where
  "unreserved c =
    (c \<in> set (''ABCDEFGHIJKLMNOPQRSTUVWXYZabcdefghijklmnopqrstuvwxyz0123456789-_.!~*()'' @ [CHR 0x27]))"

definition percent :: "nat \<Rightarrow> string" where
  "percent b = [CHR ''%'', ''0123456789ABCDEF'' ! (b div 16), ''0123456789ABCDEF'' ! (b mod 16)]"

definition encode_unit :: "char \<Rightarrow> string" where
  "encode_unit c =
    (let n = (of_char c :: nat)
     in if unreserved c then [c]
        else if n < 128 then percent n
        else percent (192 + n div 64) @ percent (128 + n mod 64))"

definition encodeURIComponent :: "string \<Rightarrow> string" where
  "encodeURIComponent s = concat (map encode_unit s)"

section \<open>Settings of one button\<close>

record QuerySettings =
  item_name :: string
  item_filter :: string
  g_cutoff_1 :: "number option"
  g_cutoff_2 :: "number option"
  g_cutoff_3 :: "number option"
  g_color_1 :: "string option"
  g_color_2 :: "string option"
  g_color_3 :: "string option"
  g_color_4 :: "string option"
  b_cutoff_1 :: "number option"
  b_cutoff_2 :: "number option"
  b_cutoff_3 :: "number option"
  b_color_1 :: "string option"
  b_color_2 :: "string option"
  b_color_3 :: "string option"
  b_color_4 :: "string option"

section \<open>The colour of a count\<close>

definition getColor :: "number \<Rightarrow> QuerySettings \<Rightarrow> string" where
  "getColor taskCount settings =
    (if truthy (g_cutoff_1 settings) then
       (if ge taskCount (g_cutoff_1 settings) then or_else (g_color_1 settings) ''green''
        else if truthy (g_cutoff_2 settings) \<and> ge taskCount (g_cutoff_2 settings)
          then or_else (g_color_2 settings) ''yellow''
        else if truthy (g_cutoff_3 settings) \<and> ge taskCount (g_cutoff_3 settings)
          then or_else (g_color_3 settings) ''orange''
        else or_else (g_color_4 settings) ''red'')
     else if truthy (b_cutoff_1 settings) then
       (if ge taskCount (b_cutoff_1 settings) then or_else (b_color_1 settings) ''red''
        else if truthy (b_cutoff_2 settings) \<and> ge taskCount (b_cutoff_2 settings)
          then or_else (b_color_2 settings) ''orange''
        else if truthy (b_cutoff_3 settings) \<and> ge taskCount (b_cutoff_3 settings)
          then or_else (b_color_3 settings) ''yellow''
        else or_else (b_color_4 settings) ''green'')
     else ''white'')"

text \<open>A configuration with every optional field \<open>null\<close>.\<close>

definition blank :: QuerySettings where
  "blank = \<lparr> item_name = [], item_filter = [],
     g_cutoff_1 = None, g_cutoff_2 = None, g_cutoff_3 = None,
     g_color_1 = None, g_color_2 = None, g_color_3 = None, g_color_4 = None,
     b_cutoff_1 = None, b_cutoff_2 = None, b_cutoff_3 = None,
     b_color_1 = None, b_color_2 = None, b_color_3 = None, b_color_4 = None \<rparr>"

section \<open>The icon\<close>

text \<open>
  The literal \<open>0.45\<close> is the double nearest to \<open>45/100\<close>; the length of a string is an
  integer and so a double as it stands.
\<close>

definition getFontSize :: "string \<Rightarrow> number \<Rightarrow> number \<Rightarrow> number" where
  "getFontSize text' maxWidth maxFontSize =
    Math_min (js_div maxWidth (js_mul (Fin (of_nat (length text'))) (round_double (45 / 100))))
      maxFontSize"

definition getButtonSvg :: "number \<Rightarrow> QuerySettings \<Rightarrow> string" where
  \<open>getButtonSvg taskCount settings =
    (let mainText = Number_toString taskCount @ '' Tasks'';
         backgroundColor = getColor taskCount settings
     in ''<svg width="144" height="144" xmlns="http://www.w3.org/2000/svg">\<newline>''
        @ ''    <rect width="144" height="144" fill="'' @ backgroundColor @ ''" />\<newline>''
        @ ''    <text x="72" y="72" dominant-baseline="middle" text-anchor="middle" fill="#000" font-size="''
        @ Number_toString (getFontSize mainText (Fin 140) (Fin 40))
        @ ''px" font-family="Tahoma">'' @ mainText @ ''</text>\<newline>''
        @ ''    <text x="72" y="135" dominant-baseline="middle" text-anchor="middle" fill="#000" font-size="''
        @ Number_toString (getFontSize (item_name settings) (Fin 140) (Fin 28))
        @ ''px" font-family="Tahoma">'' @ item_name settings @ ''</text>\<newline>''
        @ ''    </svg>'')\<close>

section \<open>The plugin and its surroundings\<close>

text \<open>
  The action object owns \<open>intervals\<close>, a map from the id of a button to its timer. Around
  it: the interval timers of the runtime (a timer is its handle, its delay in milliseconds
  and the button whose settings its callback requests), the next fresh handle, the calls
  made to the host, the network and the logger in the order they were made, and the image
  each button shows.
\<close>

record timer =
  handle :: nat
  delay :: nat
  target :: string

datatype call =
    GetSettings string
  | GetGlobalSettings
  | Fetch string string
  | SetImage string string
  | LogDebug string
  | LogError string

record world =
  intervals :: "string \<rightharpoonup> nat"
  timers :: "timer list"
  next_handle :: nat
  calls :: "call list"
  images :: "string \<rightharpoonup> string"

definition init :: world where
  "init = \<lparr> intervals = Map.empty, timers = [], next_handle = 0, calls = [], images = Map.empty \<rparr>"

text \<open>An event of the host: the action it is about (\<open>ev.action.id\<close>) and \<open>ev.payload.settings\<close>.\<close>

record event =
  action_id :: string
  settings :: QuerySettings

datatype js_error = Error string | Rejection string

record TodoistSettings =
  apiToken :: string

record Task =
  id' :: string
  content :: string

text \<open>
  What a response of the task service offers to the plugin: \<open>ok\<close>, \<open>statusText\<close>, the outcome
  of \<open>json()\<close> and the text \<open>JSON.stringify\<close> makes of it.
\<close>

record response =
  ok :: bool
  statusText :: string
  json :: "js_error + Task list"
  stringify :: string

text \<open>
  What the surroundings answer: the outcome of \<open>getGlobalSettings()\<close> and, for a URL and
  an \<open>Authorization\<close> header, the outcome of \<open>fetch\<close>.
\<close>

record env =
  globalSettings :: "js_error + TodoistSettings"
  fetch :: "string \<Rightarrow> string \<Rightarrow> js_error + response"

definition made :: "call \<Rightarrow> world \<Rightarrow> world" where
  "made c w = w\<lparr>calls := calls w @ [c]\<rparr>"

definition setInterval :: "string \<Rightarrow> nat \<Rightarrow> world \<Rightarrow> nat \<times> world" where
  "setInterval tgt ms w =
    (next_handle w,
     w\<lparr>timers := timers w @ [\<lparr>handle = next_handle w, delay = ms, target = tgt\<rparr>],
       next_handle := Suc (next_handle w)\<rparr>)"

definition clearInterval :: "nat \<Rightarrow> world \<Rightarrow> world" where
  "clearInterval h w = w\<lparr>timers := filter (\<lambda>t. handle t \<noteq> h) (timers w)\<rparr>"

definition getSettings :: "string \<Rightarrow> world \<Rightarrow> world" where
  "getSettings a w = made (GetSettings a) w"

definition setImage :: "string \<Rightarrow> string \<Rightarrow> world \<Rightarrow> (js_error + unit) \<times> world" where
  "setImage a img w = (Inr (), (made (SetImage a img) w)\<lparr>images := (images w)(a \<mapsto> img)\<rparr>)"

text \<open>The callback handed to \<open>setInterval\<close>, run when the timer fires.\<close>

definition timer_fired :: "timer \<Rightarrow> world \<Rightarrow> world" where
  "timer_fired t w = getSettings (target t) (made (LogDebug ''Timer fired'') w)"

definition startTimerIfNeeded :: "event \<Rightarrow> world \<Rightarrow> world" where
  "startTimerIfNeeded ev w =
    (case intervals w (action_id ev) of
       None \<Rightarrow>
         (let (h, w') = setInterval (action_id ev) 60000 w
          in w'\<lparr>intervals := (intervals w')(action_id ev \<mapsto> h)\<rparr>)
     | Some _ \<Rightarrow> w)"

definition onWillAppear :: "event \<Rightarrow> world \<Rightarrow> world" where
  "onWillAppear ev w =
    (let w' = startTimerIfNeeded ev w
     in if item_filter (settings ev) \<noteq> [] then getSettings (action_id ev) w' else w')"

definition onWillDisappear :: "event \<Rightarrow> world \<Rightarrow> world" where
  "onWillDisappear ev w =
    (case intervals w (action_id ev) of
       Some h \<Rightarrow>
         (let w' = clearInterval h w
          in w'\<lparr>intervals := (intervals w')(action_id ev := None)\<rparr>)
     | None \<Rightarrow> w)"

definition onKeyDown :: "event \<Rightarrow> world \<Rightarrow> world" where
  "onKeyDown ev w = getSettings (action_id ev) w"

definition getTasks :: "env \<Rightarrow> string \<Rightarrow> string \<Rightarrow> world \<Rightarrow> (js_error + Task list) \<times> world" where
  "getTasks e apiToken' item_filter' w =
    (let url = ''https://api.todoist.com/rest/v2/tasks?filter='' @ encodeURIComponent item_filter';
         w1 = made (LogDebug (''Fetching tasks from '' @ url)) w;
         w2 = made (Fetch url (''Bearer '' @ apiToken')) w1
     in case fetch e url (''Bearer '' @ apiToken') of
          Inl err \<Rightarrow> (Inl err, w2)
        | Inr response \<Rightarrow>
            if \<not> ok response then
              (Inl (Error (''Error fetching tasks: '' @ statusText response)),
               made (LogError (''Error fetching tasks: '' @ statusText response)) w2)
            else
              (json response, made (LogDebug (''Got response: '' @ stringify response)) w2))"

definition updateButton :: "env \<Rightarrow> QuerySettings \<Rightarrow> string \<Rightarrow> world \<Rightarrow> (js_error + unit) \<times> world" where
  "updateButton e settings' action w =
    (case globalSettings e of
       Inl err \<Rightarrow> (Inl err, made GetGlobalSettings w)
     | Inr globalSettings' \<Rightarrow>
         (case getTasks e (apiToken globalSettings') (item_filter settings') (made GetGlobalSettings w) of
            (Inl err, w') \<Rightarrow> (Inl err, w')
          | (Inr tasks, w') \<Rightarrow>
              (let svg = getButtonSvg (Fin (of_nat (length tasks))) settings'
               in setImage action (''data:image/svg+xml;charset=utf8,'' @ svg) w')))"

definition onDidReceiveSettings :: "env \<Rightarrow> event \<Rightarrow> world \<Rightarrow> (js_error + unit) \<times> world" where
  "onDidReceiveSettings e ev w = updateButton e (settings ev) (action_id ev) w"

text \<open>The calls to \<open>setImage\<close> among the calls made so far.\<close>

fun is_SetImage :: "call \<Rightarrow> bool" where
  "is_SetImage (SetImage _ _) = True"
| "is_SetImage _ = False"

text \<open>
  The map and the timers of the runtime agree: the timers that target a button are the one
  timer the map holds for it, of 60000 milliseconds, or none; handles are below the next
  fresh one and no two timers share a handle.
\<close>

definition consistent :: "world \<Rightarrow> bool" where
  "consistent w =
    ((\<forall>a. filter (\<lambda>t. target t = a) (timers w) =
          (case intervals w a of None \<Rightarrow> []
           | Some h \<Rightarrow> [\<lparr>handle = h, delay = 60000, target = a\<rparr>]))
     \<and> (\<forall>t \<in> set (timers w). handle t < next_handle w)
     \<and> distinct (map handle (timers w)))"

text \<open>Surroundings in which the task service answers every request with \<open>403 Forbidden\<close>.\<close>

definition failing :: env where
  "failing = \<lparr> globalSettings = Inr \<lparr>apiToken = ''secret''\<rparr>,
     fetch = (\<lambda>url auth. Inr \<lparr>ok = False, statusText = ''Forbidden'', json = Inr [], stringify = ''{}''\<rparr>) \<rparr>"

section \<open>Properties of the colour policy\<close>

text \<open>
  C1 (as amended). When the test \<open>if (settings.g_cutoff_1)\<close> passes, that is when the first
  cutoff of ladder G is a number other than zero and \<open>NaN\<close>, the colour is the first colour
  (default green) for a count at or above the first cutoff, else the second (default yellow)
  when the second cutoff passes the same test and the count reaches it, else the third
  (default orange) likewise, else the fourth (default red). A default stands in for a colour
  that is \<open>null\<close> or empty.
\<close>

theorem getColor_ladder_G:
  assumes "truthy (g_cutoff_1 s)"
  shows "getColor count s =
    (if ge count (g_cutoff_1 s) then or_else (g_color_1 s) ''green''
     else if truthy (g_cutoff_2 s) \<and> ge count (g_cutoff_2 s) then or_else (g_color_2 s) ''yellow''
     else if truthy (g_cutoff_3 s) \<and> ge count (g_cutoff_3 s) then or_else (g_color_3 s) ''orange''
     else or_else (g_color_4 s) ''red'')"
  using assms by (simp add: getColor_def)

text \<open>Cutoffs 10, 5 and 2 on ladder G: 15, 7, 3 and 1 tasks give the four colours in turn.\<close>

theorem getColor_ladder_G_witness:
  "truthy (g_cutoff_1 (blank\<lparr>g_cutoff_1 := Some (Fin 10), g_cutoff_2 := Some (Fin 5),
       g_cutoff_3 := Some (Fin 2)\<rparr>))
   \<and> getColor (Fin 15) (blank\<lparr>g_cutoff_1 := Some (Fin 10), g_cutoff_2 := Some (Fin 5),
       g_cutoff_3 := Some (Fin 2)\<rparr>) = ''green''
   \<and> getColor (Fin 7) (blank\<lparr>g_cutoff_1 := Some (Fin 10), g_cutoff_2 := Some (Fin 5),
       g_cutoff_3 := Some (Fin 2)\<rparr>) = ''yellow''
   \<and> getColor (Fin 3) (blank\<lparr>g_cutoff_1 := Some (Fin 10), g_cutoff_2 := Some (Fin 5),
       g_cutoff_3 := Some (Fin 2)\<rparr>) = ''orange''
   \<and> getColor (Fin 1) (blank\<lparr>g_cutoff_1 := Some (Fin 10), g_cutoff_2 := Some (Fin 5),
       g_cutoff_3 := Some (Fin 2)\<rparr>) = ''red''"
proof -
  let ?s = "blank\<lparr>g_cutoff_1 := Some (Fin 10), g_cutoff_2 := Some (Fin 5), g_cutoff_3 := Some (Fin 2)\<rparr>"
  have t: "truthy (g_cutoff_1 ?s)" by simp
  show ?thesis
    using t getColor_ladder_G [OF t, of "Fin 15"] getColor_ladder_G [OF t, of "Fin 7"]
      getColor_ladder_G [OF t, of "Fin 3"] getColor_ladder_G [OF t, of "Fin 1"]
    by (simp add: blank_def ge_def)
qed

text \<open>
  A first cutoff of zero is present in the settings and every count reaches it, yet the
  colour is not the first colour of ladder G; so for a second cutoff of zero below a first
  cutoff of ten, and for a first cutoff that is \<open>NaN\<close>.
\<close>

theorem getColor_ladder_G_counterexample:
  "g_cutoff_1 (blank\<lparr>g_cutoff_1 := Some (Fin 0)\<rparr>) = Some (Fin 0)
   \<and> js_ge (Fin 5) (Fin 0)
   \<and> getColor (Fin 5) (blank\<lparr>g_cutoff_1 := Some (Fin 0)\<rparr>) = ''white''
   \<and> g_cutoff_2 (blank\<lparr>g_cutoff_1 := Some (Fin 10), g_cutoff_2 := Some (Fin 0)\<rparr>) = Some (Fin 0)
   \<and> \<not> js_ge (Fin 3) (Fin 10) \<and> js_ge (Fin 3) (Fin 0)
   \<and> getColor (Fin 3) (blank\<lparr>g_cutoff_1 := Some (Fin 10), g_cutoff_2 := Some (Fin 0)\<rparr>) = ''red''
   \<and> getColor (Fin 5) (blank\<lparr>g_cutoff_1 := Some NaN\<rparr>) = ''white''"
  by (simp add: getColor_def blank_def ge_def)

text \<open>
  C2 (as amended). When the test on the first cutoff of ladder G fails (it is \<open>null\<close>, zero
  or \<open>NaN\<close>) and the test on the first cutoff of ladder B passes, the colour is the first
  colour of ladder B (default red) for a count at or above the first cutoff, else the second
  (default orange), the third (default yellow) or the fourth (default green) by the same
  rule as on ladder G: the defaults of ladder B are those of ladder G in reverse order.
\<close>

theorem getColor_ladder_B:
  assumes "\<not> truthy (g_cutoff_1 s)" and "truthy (b_cutoff_1 s)"
  shows "getColor count s =
    (if ge count (b_cutoff_1 s) then or_else (b_color_1 s) ''red''
     else if truthy (b_cutoff_2 s) \<and> ge count (b_cutoff_2 s) then or_else (b_color_2 s) ''orange''
     else if truthy (b_cutoff_3 s) \<and> ge count (b_cutoff_3 s) then or_else (b_color_3 s) ''yellow''
     else or_else (b_color_4 s) ''green'')"
  using assms by (simp add: getColor_def)

theorem getColor_ladder_B_witness:
  "\<not> truthy (g_cutoff_1 (blank\<lparr>b_cutoff_1 := Some (Fin 10), b_cutoff_2 := Some (Fin 5),
       b_cutoff_3 := Some (Fin 2)\<rparr>))
   \<and> truthy (b_cutoff_1 (blank\<lparr>b_cutoff_1 := Some (Fin 10), b_cutoff_2 := Some (Fin 5),
       b_cutoff_3 := Some (Fin 2)\<rparr>))
   \<and> getColor (Fin 15) (blank\<lparr>b_cutoff_1 := Some (Fin 10), b_cutoff_2 := Some (Fin 5),
       b_cutoff_3 := Some (Fin 2)\<rparr>) = ''red''
   \<and> getColor (Fin 7) (blank\<lparr>b_cutoff_1 := Some (Fin 10), b_cutoff_2 := Some (Fin 5),
       b_cutoff_3 := Some (Fin 2)\<rparr>) = ''orange''
   \<and> getColor (Fin 3) (blank\<lparr>b_cutoff_1 := Some (Fin 10), b_cutoff_2 := Some (Fin 5),
       b_cutoff_3 := Some (Fin 2)\<rparr>) = ''yellow''
   \<and> getColor (Fin 1) (blank\<lparr>b_cutoff_1 := Some (Fin 10), b_cutoff_2 := Some (Fin 5),
       b_cutoff_3 := Some (Fin 2)\<rparr>) = ''green''"
proof -
  let ?s = "blank\<lparr>b_cutoff_1 := Some (Fin 10), b_cutoff_2 := Some (Fin 5), b_cutoff_3 := Some (Fin 2)\<rparr>"
  have g: "\<not> truthy (g_cutoff_1 ?s)" by (simp add: blank_def)
  have b: "truthy (b_cutoff_1 ?s)" by simp
  show ?thesis
    using g b getColor_ladder_B [OF g b, of "Fin 15"] getColor_ladder_B [OF g b, of "Fin 7"]
      getColor_ladder_B [OF g b, of "Fin 3"] getColor_ladder_B [OF g b, of "Fin 1"]
    by (simp add: blank_def ge_def)
qed

theorem getColor_ladder_B_counterexample:
  "g_cutoff_1 (blank\<lparr>b_cutoff_1 := Some (Fin 0)\<rparr>) = None
   \<and> b_cutoff_1 (blank\<lparr>b_cutoff_1 := Some (Fin 0)\<rparr>) = Some (Fin 0)
   \<and> js_ge (Fin 5) (Fin 0)
   \<and> getColor (Fin 5) (blank\<lparr>b_cutoff_1 := Some (Fin 0)\<rparr>) = ''white''
   \<and> b_cutoff_2 (blank\<lparr>b_cutoff_1 := Some (Fin 10), b_cutoff_2 := Some (Fin 0)\<rparr>) = Some (Fin 0)
   \<and> \<not> js_ge (Fin 3) (Fin 10) \<and> js_ge (Fin 3) (Fin 0)
   \<and> getColor (Fin 3) (blank\<lparr>b_cutoff_1 := Some (Fin 10), b_cutoff_2 := Some (Fin 0)\<rparr>) = ''green''"
  by (simp add: getColor_def blank_def ge_def)

text \<open>
  C3 (as amended). When the test on the first cutoff of ladder G passes, no cutoff and no
  colour of ladder B has any influence on the colour.
\<close>

theorem getColor_ladder_G_precedence:
  assumes "truthy (g_cutoff_1 s)"
  shows "getColor count (s\<lparr>b_cutoff_1 := ca, b_cutoff_2 := cb, b_cutoff_3 := cc,
       b_color_1 := ka, b_color_2 := kb, b_color_3 := kc, b_color_4 := kd\<rparr>) = getColor count s"
  using assms by (simp add: getColor_def)

theorem getColor_ladder_G_precedence_witness:
  "truthy (g_cutoff_1 (blank\<lparr>g_cutoff_1 := Some (Fin 10)\<rparr>))
   \<and> getColor (Fin 7) (blank\<lparr>g_cutoff_1 := Some (Fin 10), b_cutoff_1 := Some (Fin 5),
         b_cutoff_2 := None, b_cutoff_3 := None, b_color_1 := Some ''blue'', b_color_2 := None,
         b_color_3 := None, b_color_4 := None\<rparr>) = ''red''"
proof -
  have t: "truthy (g_cutoff_1 (blank\<lparr>g_cutoff_1 := Some (Fin 10)\<rparr>))" by simp
  show ?thesis
    using t getColor_ladder_G_precedence [OF t, where count = "Fin 7" and ca = "Some (Fin 5)"
        and cb = None and cc = None and ka = "Some ''blue''" and kb = None and kc = None and kd = None]
    by (simp add: getColor_def blank_def ge_def)
qed

text \<open>
  Both first cutoffs are present, the one of ladder G being zero: the colour follows
  ladder B, and changes with a colour of ladder B.
\<close>

theorem getColor_ladder_G_precedence_counterexample:
  "g_cutoff_1 (blank\<lparr>g_cutoff_1 := Some (Fin 0), b_cutoff_1 := Some (Fin 5)\<rparr>) = Some (Fin 0)
   \<and> b_cutoff_1 (blank\<lparr>g_cutoff_1 := Some (Fin 0), b_cutoff_1 := Some (Fin 5)\<rparr>) = Some (Fin 5)
   \<and> getColor (Fin 7) (blank\<lparr>g_cutoff_1 := Some (Fin 0), b_cutoff_1 := Some (Fin 5)\<rparr>) = ''red''
   \<and> getColor (Fin 7) (blank\<lparr>g_cutoff_1 := Some (Fin 0), b_cutoff_1 := Some (Fin 5),
         b_color_1 := Some ''blue''\<rparr>) = ''blue''"
  by (simp add: getColor_def blank_def ge_def)

text \<open>
  C4. When the first cutoff of ladder G and the first cutoff of ladder B are both \<open>null\<close>,
  the colour is white, whatever the count and the other fields.
\<close>

theorem getColor_white:
  assumes "g_cutoff_1 s = None" and "b_cutoff_1 s = None"
  shows "getColor count s = ''white''"
  using assms by (simp add: getColor_def)

theorem getColor_white_witness:
  "g_cutoff_1 (blank\<lparr>g_cutoff_2 := Some (Fin 5), g_color_1 := Some ''green'', b_cutoff_3 := Some (Fin 2)\<rparr>) = None
   \<and> b_cutoff_1 (blank\<lparr>g_cutoff_2 := Some (Fin 5), g_color_1 := Some ''green'', b_cutoff_3 := Some (Fin 2)\<rparr>) = None
   \<and> getColor (Fin 7) (blank\<lparr>g_cutoff_2 := Some (Fin 5), g_color_1 := Some ''green'', b_cutoff_3 := Some (Fin 2)\<rparr>) = ''white''"
proof -
  let ?s = "blank\<lparr>g_cutoff_2 := Some (Fin 5), g_color_1 := Some ''green'', b_cutoff_3 := Some (Fin 2)\<rparr>"
  have g: "g_cutoff_1 ?s = None" and b: "b_cutoff_1 ?s = None" by (simp_all add: blank_def)
  show ?thesis using g b getColor_white [OF g b, of "Fin 7"] by simp
qed

text \<open>
  C9. A cutoff of zero counts as a cutoff that is \<open>null\<close>: for each of the six cutoffs, the
  colour of every count is the same with zero in that field as with \<open>null\<close> in it. A first
  cutoff of zero on ladder G hands the decision to ladder B or to white, whatever the
  other fields of ladder G hold.
\<close>

theorem getColor_zero_cutoff_unset:
  "getColor count (s\<lparr>g_cutoff_1 := Some (Fin 0)\<rparr>) = getColor count (s\<lparr>g_cutoff_1 := None\<rparr>)
   \<and> getColor count (s\<lparr>g_cutoff_2 := Some (Fin 0)\<rparr>) = getColor count (s\<lparr>g_cutoff_2 := None\<rparr>)
   \<and> getColor count (s\<lparr>g_cutoff_3 := Some (Fin 0)\<rparr>) = getColor count (s\<lparr>g_cutoff_3 := None\<rparr>)
   \<and> getColor count (s\<lparr>b_cutoff_1 := Some (Fin 0)\<rparr>) = getColor count (s\<lparr>b_cutoff_1 := None\<rparr>)
   \<and> getColor count (s\<lparr>b_cutoff_2 := Some (Fin 0)\<rparr>) = getColor count (s\<lparr>b_cutoff_2 := None\<rparr>)
   \<and> getColor count (s\<lparr>b_cutoff_3 := Some (Fin 0)\<rparr>) = getColor count (s\<lparr>b_cutoff_3 := None\<rparr>)
   \<and> getColor count (s\<lparr>g_cutoff_1 := Some (Fin 0)\<rparr>) =
       (if truthy (b_cutoff_1 s) then
          (if ge count (b_cutoff_1 s) then or_else (b_color_1 s) ''red''
           else if truthy (b_cutoff_2 s) \<and> ge count (b_cutoff_2 s) then or_else (b_color_2 s) ''orange''
           else if truthy (b_cutoff_3 s) \<and> ge count (b_cutoff_3 s) then or_else (b_color_3 s) ''yellow''
           else or_else (b_color_4 s) ''green'')
        else ''white'')"
  by (simp add: getColor_def)

section \<open>Properties of the timers\<close>

lemma startTimerIfNeeded_registered:
  "intervals w (action_id ev) = Some h \<Longrightarrow> startTimerIfNeeded ev w = w"
  by (simp add: startTimerIfNeeded_def)

lemma startTimerIfNeeded_fresh:
  "intervals w (action_id ev) = None \<Longrightarrow>
   startTimerIfNeeded ev w =
     w\<lparr>timers := timers w @ [\<lparr>handle = next_handle w, delay = 60000, target = action_id ev\<rparr>],
       next_handle := Suc (next_handle w),
       intervals := (intervals w)(action_id ev \<mapsto> next_handle w)\<rparr>"
  by (simp add: startTimerIfNeeded_def setInterval_def)

lemma onWillAppear_intervals:
  "intervals (onWillAppear ev w) = intervals (startTimerIfNeeded ev w)"
  by (simp add: onWillAppear_def Let_def getSettings_def made_def)

lemma onWillAppear_timers:
  "timers (onWillAppear ev w) = timers (startTimerIfNeeded ev w)"
  by (simp add: onWillAppear_def Let_def getSettings_def made_def)

lemma onWillAppear_next_handle:
  "next_handle (onWillAppear ev w) = next_handle (startTimerIfNeeded ev w)"
  by (simp add: onWillAppear_def Let_def getSettings_def made_def)

lemma onWillAppear_registered:
  assumes "intervals w (action_id ev) = Some h"
  shows "intervals (onWillAppear ev w) = intervals w \<and> timers (onWillAppear ev w) = timers w
    \<and> next_handle (onWillAppear ev w) = next_handle w"
  using assms
  by (simp add: startTimerIfNeeded_registered onWillAppear_intervals onWillAppear_timers
      onWillAppear_next_handle)

lemma fold_onWillAppear_registered:
  assumes "\<forall>ev \<in> set evs. action_id ev = a" and "intervals w a = Some h"
  shows "intervals (fold onWillAppear evs w) = intervals w
    \<and> timers (fold onWillAppear evs w) = timers w
    \<and> next_handle (fold onWillAppear evs w) = next_handle w"
  using assms
proof (induction evs arbitrary: w)
  case Nil
  then show ?case by simp
next
  case (Cons ev evs)
  from Cons.prems have a: "action_id ev = a" by simp
  with Cons.prems have r: "intervals w (action_id ev) = Some h" by simp
  have same: "intervals (onWillAppear ev w) = intervals w" "timers (onWillAppear ev w) = timers w"
    "next_handle (onWillAppear ev w) = next_handle w"
    using onWillAppear_registered [OF r] by simp_all
  have "intervals (onWillAppear ev w) a = Some h" using same Cons.prems by simp
  with Cons.IH [of "onWillAppear ev w"] Cons.prems same show ?case by simp
qed

lemma consistent_init: "consistent init"
  by (simp add: consistent_def init_def)

lemma consistent_made: "consistent (made c w) = consistent w"
  by (simp add: consistent_def made_def)

lemma consistent_startTimerIfNeeded:
  assumes "consistent w"
  shows "consistent (startTimerIfNeeded ev w)"
proof (cases "intervals w (action_id ev)")
  case (Some h)
  then show ?thesis using assms by (simp add: startTimerIfNeeded_registered)
next
  case None
  from assms have none: "filter (\<lambda>t. target t = action_id ev) (timers w) = []"
    using None unfolding consistent_def by (metis option.simps(4))
  show ?thesis
    using assms none None
    unfolding startTimerIfNeeded_fresh [OF None] consistent_def
    by (auto simp: less_Suc_eq)
qed

lemma consistent_onWillAppear:
  assumes "consistent w"
  shows "consistent (onWillAppear ev w)"
  using consistent_startTimerIfNeeded [OF assms, of ev]
  by (simp add: onWillAppear_def Let_def getSettings_def consistent_made)

lemma consistent_onWillDisappear:
  assumes "consistent w"
  shows "consistent (onWillDisappear ev w)"
proof (cases "intervals w (action_id ev)")
  case None
  then show ?thesis using assms by (simp add: onWillDisappear_def)
next
  case (Some h)
  let ?a = "action_id ev"
  let ?ta = "\<lparr>handle = h, delay = 60000, target = ?a\<rparr>"
  from assms Some have fa: "filter (\<lambda>t. target t = ?a) (timers w) = [?ta]"
    unfolding consistent_def by (metis option.simps(5))
  then have "?ta \<in> set (filter (\<lambda>t. target t = ?a) (timers w))" by simp
  then have ta: "?ta \<in> set (timers w)" by simp
  have d: "distinct (map handle (timers w))" using assms by (simp add: consistent_def)
  have other: "handle t \<noteq> h" if "t \<in> set (timers w)" "target t \<noteq> ?a" for t
  proof
    assume "handle t = h"
    then have "handle t = handle ?ta" by simp
    with d that(1) ta have "t = ?ta"
      by (meson distinct_map inj_on_def)
    with that(2) show False by simp
  qed
  have w': "onWillDisappear ev w =
      w\<lparr>timers := filter (\<lambda>t. handle t \<noteq> h) (timers w), intervals := (intervals w)(?a := None)\<rparr>"
    using Some by (simp add: onWillDisappear_def clearInterval_def)
  have "filter (\<lambda>t. target t = b) (filter (\<lambda>t. handle t \<noteq> h) (timers w)) =
      (case ((intervals w)(?a := None)) b of None \<Rightarrow> []
       | Some h' \<Rightarrow> [\<lparr>handle = h', delay = 60000, target = b\<rparr>])" for b
  proof (cases "b = ?a")
    case True
    have "filter (\<lambda>t. target t = ?a) (filter (\<lambda>t. handle t \<noteq> h) (timers w))
        = filter (\<lambda>t. handle t \<noteq> h) (filter (\<lambda>t. target t = ?a) (timers w))"
      by (simp add: conj_commute)
    then show ?thesis using True fa by simp
  next
    case False
    have "filter (\<lambda>t. target t = b) (filter (\<lambda>t. handle t \<noteq> h) (timers w))
        = filter (\<lambda>t. target t = b) (timers w)"
      using other False by (auto intro!: filter_cong)
    then show ?thesis using False assms by (simp add: consistent_def)
  qed
  moreover have "\<forall>t \<in> set (filter (\<lambda>t. handle t \<noteq> h) (timers w)). handle t < next_handle w"
    using assms by (simp add: consistent_def)
  moreover have "distinct (map handle (filter (\<lambda>t. handle t \<noteq> h) (timers w)))"
    using d by (simp add: distinct_map_filter)
  ultimately show ?thesis unfolding w' consistent_def by simp
qed

lemma consistent_timer_fired: "consistent (timer_fired t w) = consistent w"
  by (simp add: timer_fired_def getSettings_def consistent_made)

lemma consistent_onKeyDown: "consistent (onKeyDown ev w) = consistent w"
  by (simp add: onKeyDown_def getSettings_def consistent_made)

lemma consistent_getTasks: "consistent (snd (getTasks e t f w)) = consistent w"
  by (simp add: getTasks_def Let_def consistent_made split: sum.splits)

lemma consistent_updateButton: "consistent (snd (updateButton e s a w)) = consistent w"
proof -
  have m: "consistent (snd (setImage a' i w')) = consistent w'" for a' i w'
    by (simp add: setImage_def consistent_def made_def)
  show ?thesis
  proof (cases "globalSettings e")
    case (Inl err)
    then show ?thesis by (simp add: updateButton_def consistent_made)
  next
    case (Inr g)
    obtain r w' where gt:
      "getTasks e (apiToken g) (item_filter s) (made GetGlobalSettings w) = (r, w')"
      by (cases "getTasks e (apiToken g) (item_filter s) (made GetGlobalSettings w)")
    have "consistent w' = consistent w"
      using consistent_getTasks [of e "apiToken g" "item_filter s" "made GetGlobalSettings w"] gt
      by (simp add: consistent_made)
    then show ?thesis
      by (cases r) (simp_all add: updateButton_def Inr gt m Let_def)
  qed
qed

lemma consistent_fold_onWillAppear:
  "consistent w \<Longrightarrow> consistent (fold onWillAppear evs w)"
  by (induction evs arbitrary: w) (simp_all add: consistent_onWillAppear)

lemma one_timer_after:
  assumes "consistent w"
  shows "filter (\<lambda>t. target t = action_id ev) (timers (onWillAppear ev w)) =
    [\<lparr>handle = (case intervals w (action_id ev) of None \<Rightarrow> next_handle w | Some h \<Rightarrow> h),
      delay = 60000, target = action_id ev\<rparr>]"
proof -
  have c: "consistent (onWillAppear ev w)" by (rule consistent_onWillAppear [OF assms])
  have i: "intervals (onWillAppear ev w) (action_id ev) =
      Some (case intervals w (action_id ev) of None \<Rightarrow> next_handle w | Some h \<Rightarrow> h)"
    by (cases "intervals w (action_id ev)")
      (simp_all add: onWillAppear_intervals startTimerIfNeeded_def setInterval_def)
  from c have "filter (\<lambda>t. target t = action_id ev) (timers (onWillAppear ev w)) =
      (case intervals (onWillAppear ev w) (action_id ev) of None \<Rightarrow> []
       | Some h \<Rightarrow> [\<lparr>handle = h, delay = 60000, target = action_id ev\<rparr>])"
    unfolding consistent_def by blast
  then show ?thesis unfolding i by simp
qed

text \<open>
  C6. In a state where map and timers agree, one appearance of a button followed by any
  number of further appearances of the same button leaves the map and the timers of the
  runtime as the first appearance left them, and exactly one timer for the button: the map
  holds one handle for it and the runtime one timer of 60000 milliseconds that targets it.
\<close>

theorem onWillAppear_idempotent:
  assumes "consistent w" and "action_id ev = a" and "\<forall>ev' \<in> set evs. action_id ev' = a"
  shows "intervals (fold onWillAppear evs (onWillAppear ev w)) = intervals (onWillAppear ev w)
    \<and> timers (fold onWillAppear evs (onWillAppear ev w)) = timers (onWillAppear ev w)
    \<and> (\<exists>h. intervals (fold onWillAppear evs (onWillAppear ev w)) a = Some h
          \<and> filter (\<lambda>t. target t = a) (timers (fold onWillAppear evs (onWillAppear ev w)))
              = [\<lparr>handle = h, delay = 60000, target = a\<rparr>])"
proof -
  let ?w = "onWillAppear ev w"
  let ?h = "case intervals w (action_id ev) of None \<Rightarrow> next_handle w | Some h \<Rightarrow> h"
  have i: "intervals ?w a = Some ?h"
    using assms(2)
    by (cases "intervals w (action_id ev)")
      (auto simp: onWillAppear_intervals startTimerIfNeeded_def setInterval_def)
  have t: "filter (\<lambda>t. target t = a) (timers ?w) = [\<lparr>handle = ?h, delay = 60000, target = a\<rparr>]"
    using one_timer_after [OF assms(1), of ev] assms(2) by simp
  have f: "intervals (fold onWillAppear evs ?w) = intervals ?w"
    "timers (fold onWillAppear evs ?w) = timers ?w"
    using fold_onWillAppear_registered [OF assms(3) i] by simp_all
  show ?thesis unfolding f using i t by simp
qed

theorem onWillAppear_idempotent_witness:
  "consistent init
   \<and> action_id \<lparr>action_id = ''A'', settings = blank\<rparr> = ''A''
   \<and> timers (fold onWillAppear [\<lparr>action_id = ''A'', settings = blank\<lparr>item_filter := ''today''\<rparr>\<rparr>]
         (onWillAppear \<lparr>action_id = ''A'', settings = blank\<rparr> init))
       = timers (onWillAppear \<lparr>action_id = ''A'', settings = blank\<rparr> init)
   \<and> timers (onWillAppear \<lparr>action_id = ''A'', settings = blank\<rparr> init)
       = [\<lparr>handle = 0, delay = 60000, target = ''A''\<rparr>]"
proof -
  let ?ev = "\<lparr>action_id = ''A'', settings = blank\<rparr>"
  let ?evs = "[\<lparr>action_id = ''A'', settings = blank\<lparr>item_filter := ''today''\<rparr>\<rparr>]"
  have 1: "action_id ?ev = ''A''" by simp
  have 2: "\<forall>ev' \<in> set ?evs. action_id ev' = ''A''" by simp
  have 3: "timers (onWillAppear ?ev init) = [\<lparr>handle = 0, delay = 60000, target = ''A''\<rparr>]"
    by (simp add: onWillAppear_timers startTimerIfNeeded_def setInterval_def init_def)
  show ?thesis
    using consistent_init 1 3 onWillAppear_idempotent [OF consistent_init 1 2] by blast
qed

text \<open>
  C7. An appearance makes one call of \<open>getSettings\<close> for its button when the filter of the
  button is not empty and no call when it is empty. In both cases the timer is scheduled
  as \<open>startTimerIfNeeded\<close> does it: a button without a timer gets one, and afterwards the
  runtime holds exactly one timer of 60000 milliseconds for the button.
\<close>

theorem onWillAppear_refresh:
  assumes "consistent w"
  shows "calls (onWillAppear ev w) =
      calls w @ (if item_filter (settings ev) = [] then [] else [GetSettings (action_id ev)])
    \<and> timers (onWillAppear ev w) =
        timers w @ (if intervals w (action_id ev) = None
                    then [\<lparr>handle = next_handle w, delay = 60000, target = action_id ev\<rparr>] else [])
    \<and> filter (\<lambda>t. target t = action_id ev) (timers (onWillAppear ev w)) =
        [\<lparr>handle = (case intervals w (action_id ev) of None \<Rightarrow> next_handle w | Some h \<Rightarrow> h),
          delay = 60000, target = action_id ev\<rparr>]"
proof (intro conjI)
  show "calls (onWillAppear ev w) =
      calls w @ (if item_filter (settings ev) = [] then [] else [GetSettings (action_id ev)])"
    by (cases "intervals w (action_id ev)")
      (simp_all add: onWillAppear_def Let_def getSettings_def made_def startTimerIfNeeded_def
        setInterval_def)
  show "timers (onWillAppear ev w) =
        timers w @ (if intervals w (action_id ev) = None
                    then [\<lparr>handle = next_handle w, delay = 60000, target = action_id ev\<rparr>] else [])"
    by (cases "intervals w (action_id ev)")
      (simp_all add: onWillAppear_timers startTimerIfNeeded_def setInterval_def)
  show "filter (\<lambda>t. target t = action_id ev) (timers (onWillAppear ev w)) =
        [\<lparr>handle = (case intervals w (action_id ev) of None \<Rightarrow> next_handle w | Some h \<Rightarrow> h),
          delay = 60000, target = action_id ev\<rparr>]"
    by (rule one_timer_after [OF assms])
qed

theorem onWillAppear_refresh_witness:
  "consistent init
   \<and> calls (onWillAppear \<lparr>action_id = ''A'', settings = blank\<lparr>item_filter := ''today''\<rparr>\<rparr> init)
       = [GetSettings ''A'']
   \<and> calls (onWillAppear \<lparr>action_id = ''A'', settings = blank\<lparr>item_filter := []\<rparr>\<rparr> init) = []
   \<and> timers (onWillAppear \<lparr>action_id = ''A'', settings = blank\<lparr>item_filter := ''today''\<rparr>\<rparr> init)
       = [\<lparr>handle = 0, delay = 60000, target = ''A''\<rparr>]
   \<and> timers (onWillAppear \<lparr>action_id = ''A'', settings = blank\<lparr>item_filter := []\<rparr>\<rparr> init)
       = [\<lparr>handle = 0, delay = 60000, target = ''A''\<rparr>]"
  using consistent_init
    onWillAppear_refresh [OF consistent_init,
      of "\<lparr>action_id = ''A'', settings = blank\<lparr>item_filter := ''today''\<rparr>\<rparr>"]
    onWillAppear_refresh [OF consistent_init,
      of "\<lparr>action_id = ''A'', settings = blank\<lparr>item_filter := []\<rparr>\<rparr>"]
  by (simp add: init_def)

section \<open>Properties of the refresh\<close>

lemma made_images: "images (made c w) = images w"
  by (simp add: made_def)

lemma made_calls: "calls (made c w) = calls w @ [c]"
  by (simp add: made_def)

lemma getTasks_not_ok:
  assumes "fetch e (''https://api.todoist.com/rest/v2/tasks?filter='' @ encodeURIComponent f)
      (''Bearer '' @ t) = Inr r"
    and "\<not> ok r"
  shows "getTasks e t f w =
    (Inl (Error (''Error fetching tasks: '' @ statusText r)),
     made (LogError (''Error fetching tasks: '' @ statusText r))
       (made (Fetch (''https://api.todoist.com/rest/v2/tasks?filter='' @ encodeURIComponent f)
               (''Bearer '' @ t))
         (made (LogDebug (''Fetching tasks from https://api.todoist.com/rest/v2/tasks?filter=''
                 @ encodeURIComponent f)) w)))"
  using assms by (simp add: getTasks_def Let_def)

text \<open>
  C5. When the response to the fetch is not ok, \<open>getTasks\<close> ends in the error
  \<open>Error fetching tasks: \<close> followed by the status text, whatever the token and the filter;
  \<open>updateButton\<close> ends in the same error, makes no call of \<open>setImage\<close> and leaves the image
  of every button as it was.
\<close>

theorem updateButton_fetch_failed:
  assumes "globalSettings e = Inr g"
    and "fetch e (''https://api.todoist.com/rest/v2/tasks?filter='' @ encodeURIComponent (item_filter s))
      (''Bearer '' @ apiToken g) = Inr r"
    and "\<not> ok r"
  shows "fst (getTasks e (apiToken g) (item_filter s) w) =
      Inl (Error (''Error fetching tasks: '' @ statusText r))
    \<and> fst (updateButton e s a w) = Inl (Error (''Error fetching tasks: '' @ statusText r))
    \<and> filter is_SetImage (calls (snd (updateButton e s a w))) = filter is_SetImage (calls w)
    \<and> images (snd (updateButton e s a w)) = images w"
  using assms by (simp add: updateButton_def getTasks_def Let_def made_def)

theorem updateButton_fetch_failed_witness:
  "globalSettings failing = Inr \<lparr>apiToken = ''secret''\<rparr>
   \<and> \<not> ok \<lparr>ok = False, statusText = ''Forbidden'', json = Inr [], stringify = ''{}''\<rparr>
   \<and> fst (updateButton failing (blank\<lparr>item_filter := ''today''\<rparr>) ''A''
         (init\<lparr>images := [''A'' \<mapsto> ''old'']\<rparr>)) = Inl (Error ''Error fetching tasks: Forbidden'')
   \<and> images (snd (updateButton failing (blank\<lparr>item_filter := ''today''\<rparr>) ''A''
         (init\<lparr>images := [''A'' \<mapsto> ''old'']\<rparr>))) ''A'' = Some ''old''"
proof -
  let ?r = "\<lparr>ok = False, statusText = ''Forbidden'', json = Inr [], stringify = ''{}''\<rparr>"
  let ?s = "blank\<lparr>item_filter := ''today''\<rparr>"
  let ?g = "\<lparr>apiToken = ''secret''\<rparr>"
  have 1: "globalSettings failing = Inr ?g" by (simp add: failing_def)
  have 2: "fetch failing (''https://api.todoist.com/rest/v2/tasks?filter='' @ encodeURIComponent (item_filter ?s))
      (''Bearer '' @ apiToken ?g) = Inr ?r" by (simp add: failing_def)
  have 3: "\<not> ok ?r" by simp
  show ?thesis
    using 1 3 updateButton_fetch_failed [OF 1 2 3, where a = "''A''"
        and w = "init\<lparr>images := [''A'' \<mapsto> ''old'']\<rparr>"]
    by simp
qed

section \<open>Properties of the icon\<close>

lemma floor_rat_numeral: "\<lfloor>numeral a / numeral b :: rat\<rfloor> = numeral a div numeral b"
  by (metis floor_divide_of_int_eq of_int_numeral)

lemma ceiling_rat_numeral: "\<lceil>numeral a / numeral b :: rat\<rceil> = - (- numeral a div numeral b)"
  by (metis ceiling_divide_eq_div of_int_numeral)

lemmas floor_log_eval = floor_log_def num_digits.simps floor_rat_numeral ceiling_rat_numeral

text \<open>
  The doubles of the example: the literal \<open>0.45\<close>, its product with 7 and the quotient of
  140 by that product.
\<close>

lemma round_double_0_45:
  "round_double (9 / 20) = Fin (8106479329266893 / 18014398509481984)"
proof -
  have "floor_log 2 (9 / 20) = - 2" by (simp add: floor_log_eval)
  then show ?thesis
    unfolding round_double_def Let_def
    by (simp add: pow_def round_half_even_def Let_def floor_rat_numeral)
qed

lemma js_mul_7:
  "js_mul (Fin 7) (Fin (8106479329266893 / 18014398509481984))
    = Fin (7093169413108531 / 2251799813685248)"
proof -
  have "floor_log 2 (56745355304868251 / 18014398509481984) = 1" by (simp add: floor_log_eval)
  then have "round_double (56745355304868251 / 18014398509481984)
      = Fin (7093169413108531 / 2251799813685248)"
    unfolding round_double_def Let_def
    by (simp add: pow_def round_half_even_def Let_def floor_rat_numeral)
  then show ?thesis by (simp add: js_mul_def)
qed

lemma js_div_140:
  "js_div (Fin 140) (Fin (7093169413108531 / 2251799813685248))
    = Fin (3127499741229511 / 70368744177664)"
proof -
  have "floor_log 2 (315251973915934720 / 7093169413108531) = 5" by (simp add: floor_log_eval)
  then have "round_double (315251973915934720 / 7093169413108531)
      = Fin (3127499741229511 / 70368744177664)"
    unfolding round_double_def Let_def
    by (simp add: pow_def round_half_even_def Let_def floor_rat_numeral)
  then show ?thesis by (simp add: js_div_def)
qed

lemma getFontSize_empty: "getFontSize [] (Fin 140) (Fin 28) = Fin 28"
  by (simp add: getFontSize_def round_double_0_45 js_mul_def js_div_def Math_min_def
      signed_zero_def signed_inf_def)

lemma round_double_20: "round_double 20 = Fin 20"
proof -
  have "floor_log 2 20 = 4" by (simp add: floor_log_eval)
  then show ?thesis
    unfolding round_double_def Let_def
    by (simp add: pow_def round_half_even_def Let_def floor_rat_numeral)
qed

lemma round_double_30: "round_double 30 = Fin 30"
proof -
  have "floor_log 2 30 = 4" by (simp add: floor_log_eval)
  then show ?thesis
    unfolding round_double_def Let_def
    by (simp add: pow_def round_half_even_def Let_def floor_rat_numeral)
qed

lemma round_double_28: "round_double 28 = Fin 28"
proof -
  have "floor_log 2 28 = 4" by (simp add: floor_log_eval)
  then show ?thesis
    unfolding round_double_def Let_def
    by (simp add: pow_def round_half_even_def Let_def floor_rat_numeral)
qed

lemma round_double_29: "round_double 29 = Fin 29"
proof -
  have "floor_log 2 29 = 4" by (simp add: floor_log_eval)
  then show ?thesis
    unfolding round_double_def Let_def
    by (simp add: pow_def round_half_even_def Let_def floor_rat_numeral)
qed

lemma positive_toString_28: "positive_toString 28 = ''28''"
proof -
  have n0: "floor_log 10 28 = 1" by (simp add: floor_log_eval)
  have k1: "shortest_at 28 2 1 = None"
    by (simp add: shortest_at_def pow_def Let_def floor_rat_numeral round_double_20 round_double_30)
  have k2: "shortest_at 28 2 2 = Some 28"
    by (simp add: shortest_at_def pow_def Let_def round_double_28 round_double_29)
  have "shortest_from 28 2 1 17 = shortest_from 28 2 1 (Suc 16)" by simp
  also have "\<dots> = shortest_from 28 2 (Suc 1) 16"
    by (simp only: shortest_from.simps k1 option.case)
  also have "\<dots> = shortest_from 28 2 2 (Suc 15)" by (simp add: numeral_2_eq_2)
  also have "\<dots> = (28, 2)"
    by (simp only: shortest_from.simps k2 option.case)
  finally have s: "shortest_from 28 2 (Suc 0) 17 = (28, 2)" by simp
  have d: "decimal 28 = ''28''"
    by (simp add: decimal.simps digit_def)
  show ?thesis
    by (simp add: positive_toString_def n0 s d)
qed

lemma round_double_5: "round_double 5 = Fin 5"
proof -
  have "floor_log 2 5 = 2" by (simp add: floor_log_eval)
  then show ?thesis
    unfolding round_double_def Let_def
    by (simp add: pow_def round_half_even_def Let_def floor_rat_numeral)
qed

lemma round_double_6: "round_double 6 = Fin 6"
proof -
  have "floor_log 2 6 = 2" by (simp add: floor_log_eval)
  then show ?thesis
    unfolding round_double_def Let_def
    by (simp add: pow_def round_half_even_def Let_def floor_rat_numeral)
qed

lemma round_double_40: "round_double 40 = Fin 40"
proof -
  have "floor_log 2 40 = 5" by (simp add: floor_log_eval)
  then show ?thesis
    unfolding round_double_def Let_def
    by (simp add: pow_def round_half_even_def Let_def floor_rat_numeral)
qed

lemma round_double_50: "round_double 50 = Fin 50"
proof -
  have "floor_log 2 50 = 5" by (simp add: floor_log_eval)
  then show ?thesis
    unfolding round_double_def Let_def
    by (simp add: pow_def round_half_even_def Let_def floor_rat_numeral)
qed

lemma positive_toString_5: "positive_toString 5 = ''5''"
proof -
  have n0: "floor_log 10 5 = 0" by (simp add: floor_log_eval)
  have k1: "shortest_at 5 1 1 = Some 5"
    by (simp add: shortest_at_def pow_def Let_def round_double_5 round_double_6)
  have "shortest_from 5 1 1 17 = shortest_from 5 1 1 (Suc 16)" by simp
  also have "\<dots> = (5, 1)"
    by (simp only: shortest_from.simps k1 option.case)
  finally have s: "shortest_from 5 1 (Suc 0) 17 = (5, 1)" by simp
  have d: "decimal 5 = ''5''"
    by (simp add: decimal.simps digit_def)
  show ?thesis
    by (simp add: positive_toString_def n0 s d)
qed

lemma positive_toString_40: "positive_toString 40 = ''40''"
proof -
  have n0: "floor_log 10 40 = 1" by (simp add: floor_log_eval)
  have k1: "shortest_at 40 2 1 = Some 4"
    by (simp add: shortest_at_def pow_def Let_def floor_rat_numeral round_double_40 round_double_50)
  have "shortest_from 40 2 1 17 = shortest_from 40 2 1 (Suc 16)" by simp
  also have "\<dots> = (4, 1)"
    by (simp only: shortest_from.simps k1 option.case)
  finally have s: "shortest_from 40 2 (Suc 0) 17 = (4, 1)" by simp
  have d: "decimal 4 = ''4''"
    by (simp add: decimal.simps digit_def)
  show ?thesis
    by (simp add: positive_toString_def n0 s d)
qed

text \<open>
  Rounding to a double moves a rational in the normal range by at most its \<open>2^-53\<close>-th
  part; so the quotient the program computes for a text of \<open>n\<close> characters is within the
  \<open>2^-51\<close>-th part of the exact quotient \<open>w / (n * 0.45)\<close>.
\<close>

lemma pow_powi: "b \<noteq> 0 \<Longrightarrow> pow b e = b powi e"
  by (simp add: pow_def power_int_def inverse_eq_divide power_divide)

lemma num_digits_bounds:
  "0 < n \<Longrightarrow> 0 < num_digits 2 n \<and> 2 ^ nat (num_digits 2 n - 1) \<le> n \<and> n < 2 ^ nat (num_digits 2 n)"
proof (induction "2 :: int" n rule: num_digits.induct)
  case (1 n)
  show ?case
  proof (cases "n div 2 = 0")
    case True
    with 1 have "n = 1" by presburger
    then show ?thesis by (simp add: num_digits.simps)
  next
    case False
    with 1 have pos: "0 < n div 2" by presburger
    let ?d = "num_digits 2 (n div 2)"
    from 1 pos have ih: "0 < ?d" "2 ^ nat (?d - 1) \<le> n div 2" "n div 2 < 2 ^ nat ?d"
      by simp_all
    have d: "num_digits 2 n = 1 + ?d" using 1 by (subst num_digits.simps) simp
    have "nat (1 + ?d - 1) = Suc (nat (?d - 1))" using ih(1) by simp
    moreover have "nat (1 + ?d) = Suc (nat ?d)" using ih(1) by simp
    moreover have "2 * 2 ^ nat (?d - 1) \<le> n" using ih(2) by presburger
    moreover have "n < 2 * 2 ^ nat ?d" using ih(3) by presburger
    ultimately show ?thesis unfolding d using ih(1) by simp
  qed
qed

lemma floor_log_bounds:
  assumes "0 < a"
  shows "2 powi (floor_log 2 a) \<le> a \<and> a < 2 powi (floor_log 2 a + 1)"
proof (cases "1 \<le> a")
  case True
  then have f: "0 < \<lfloor>a\<rfloor>" by simp
  let ?d = "num_digits 2 \<lfloor>a\<rfloor>"
  from num_digits_bounds [OF f] have d: "0 < ?d" "2 ^ nat (?d - 1) \<le> \<lfloor>a\<rfloor>" "\<lfloor>a\<rfloor> < 2 ^ nat ?d"
    by simp_all
  have e: "floor_log 2 a = ?d - 1" using True by (simp add: floor_log_def)
  have "(2::rat) powi (?d - 1) = of_int (2 ^ nat (?d - 1))"
    using d(1) by (simp add: power_int_def)
  also have "\<dots> \<le> of_int \<lfloor>a\<rfloor>" using d(2) by (simp only: of_int_le_iff)
  also have "\<dots> \<le> a" by simp
  finally have lo: "2 powi (?d - 1) \<le> a" .
  have "a < of_int (\<lfloor>a\<rfloor> + 1)" by linarith
  also have "\<dots> \<le> of_int (2 ^ nat ?d)" using d(3) by (simp only: of_int_le_iff)
  also have "\<dots> = (2::rat) powi ?d" using d(1) by (simp add: power_int_def)
  finally have hi: "a < 2 powi ?d" .
  show ?thesis unfolding e using lo hi by simp
next
  case False
  then have a1: "a < 1" by simp
  let ?c = "\<lceil>1 / a\<rceil>"
  have "1 < 1 / a" using assms a1 by simp
  then have c2: "2 \<le> ?c" by linarith
  then have f: "0 < ?c - 1" by simp
  let ?d = "num_digits 2 (?c - 1)"
  from num_digits_bounds [OF f] have d: "0 < ?d" "2 ^ nat (?d - 1) \<le> ?c - 1" "?c - 1 < 2 ^ nat ?d"
    by simp_all
  have e: "floor_log 2 a = - ?d" using False by (simp add: floor_log_def)
  have "1 / a \<le> of_int ?c" by simp
  also have "\<dots> \<le> of_int (2 ^ nat ?d)" using d(3) by (simp only: of_int_le_iff)
  finally have "1 / a \<le> 2 ^ nat ?d" by simp
  then have "1 / 2 ^ nat ?d \<le> a"
    using assms by (simp add: field_simps)
  moreover have "(2::rat) powi (- ?d) = 1 / 2 ^ nat ?d"
    using d(1) by (simp add: power_int_def power_one_over)
  ultimately have lo: "2 powi (- ?d) \<le> a" by simp
  have "of_int (2 ^ nat (?d - 1)) \<le> (of_int (?c - 1) :: rat)" using d(2) by (simp only: of_int_le_iff)
  also have "\<dots> < 1 / a" by linarith
  finally have "2 ^ nat (?d - 1) < 1 / a" by simp
  then have "a < 1 / 2 ^ nat (?d - 1)"
    using assms by (simp add: field_simps)
  moreover have "(2::rat) powi (- ?d + 1) = 1 / 2 ^ nat (?d - 1)"
  proof -
    have "- ?d + 1 = - int (nat (?d - 1))" using d(1) by simp
    then show ?thesis by (simp only: power_int_minus power_int_of_nat inverse_eq_divide)
  qed
  ultimately have hi: "a < 2 powi (- ?d + 1)" by simp
  show ?thesis unfolding e using lo hi by simp
qed

lemma round_half_even_error: "\<bar>of_int (round_half_even q) - q\<bar> \<le> 1 / 2"
proof -
  have "of_int \<lfloor>q\<rfloor> \<le> q" "q < of_int \<lfloor>q\<rfloor> + 1" by linarith+
  then show ?thesis
    by (auto simp: round_half_even_def Let_def)
qed

lemma round_double_error:
  assumes lo: "2 powi (- 1022) \<le> a" and hi: "a \<le> 2 powi 1023"
  shows "\<exists>v. round_double a = Fin v \<and> 0 < v \<and> \<bar>v - a\<bar> \<le> a / 2 ^ 53"
proof -
  have "(0::rat) < 2 powi (- 1022)" by simp
  with lo have pos: "0 < a" by linarith
  define e where "e = floor_log 2 a"
  from floor_log_bounds [OF pos] have b: "2 powi e \<le> a" "a < 2 powi (e + 1)"
    by (simp_all add: e_def)
  have e_lo: "- 1022 \<le> e"
  proof (rule ccontr)
    assume "\<not> - 1022 \<le> e"
    then have "e + 1 \<le> - 1022" by simp
    then have "(2::rat) powi (e + 1) \<le> 2 powi (- 1022)"
      by (intro power_int_increasing) simp_all
    with b(2) lo show False by linarith
  qed
  define ulp :: rat where "ulp = 2 powi (e - 52)"
  have ulp_pos: "0 < ulp" by (simp add: ulp_def)
  define v :: rat where "v = of_int (round_half_even (a / ulp)) * ulp"
  have "\<bar>v - a\<bar> = \<bar>of_int (round_half_even (a / ulp)) - a / ulp\<bar> * ulp"
  proof -
    have "v - a = (of_int (round_half_even (a / ulp)) - a / ulp) * ulp"
      using ulp_pos by (simp add: v_def field_simps)
    then show ?thesis using ulp_pos by (simp add: abs_mult)
  qed
  also have "\<dots> \<le> (1 / 2) * ulp"
    using round_half_even_error [of "a / ulp"] ulp_pos by (intro mult_right_mono) simp_all
  also have "\<dots> = 2 powi e / 2 ^ 53"
  proof -
    have "(2::rat) powi (e - 52) = 2 powi e * 2 powi (- 52)"
      by (simp add: power_int_diff power_int_minus field_simps)
    then show ?thesis by (simp add: ulp_def power_int_minus field_simps)
  qed
  also have "\<dots> \<le> a / 2 ^ 53" using b(1) by (simp add: divide_right_mono)
  finally have err: "\<bar>v - a\<bar> \<le> a / 2 ^ 53" .
  have "a / 2 ^ 53 < a" using pos by (simp add: field_simps)
  with err have v_pos: "0 < v" by linarith
  have "v \<le> a + a / 2 ^ 53" using err by linarith
  also have "\<dots> \<le> 2 powi 1023 + 2 powi 1023 / 2 ^ 53"
    using hi by (intro add_mono divide_right_mono) simp_all
  also have "\<dots> < 2 powi 1023 + 2 powi 1023" by (simp add: field_simps)
  also have "\<dots> = (2::rat) powi 1024"
  proof -
    have "(2::rat) powi 1024 = 2 powi (1023 + 1)" by simp
    also have "\<dots> = 2 powi 1023 * 2 powi 1" by (rule power_int_add) simp
    finally show ?thesis by simp
  qed
  finally have v_hi: "v < 2 powi 1024" .
  have m: "max (floor_log 2 a) (- 1022) = e" using e_lo by (simp add: e_def)
  have abs: "\<bar>a\<bar> = a" using pos by simp
  have p: "pow 2 (e - 52) = ulp" "pow 2 1024 = 2 powi 1024"
    by (simp_all only: ulp_def pow_powi [of 2, simplified])
  have "round_double a = Fin v"
    using pos v_pos v_hi
    unfolding round_double_def Let_def abs m p
    by (simp flip: v_def)
  with v_pos err show ?thesis by blast
qed

lemma rel_error_bounds:
  fixes a v u :: rat
  assumes "\<bar>v - a\<bar> \<le> a / 2 ^ 53"
  shows "a * (1 - 1 / 2 ^ 53) \<le> v" and "v \<le> a * (1 + 1 / 2 ^ 53)"
proof -
  have d: "v - a \<le> a / 2 ^ 53" "a - v \<le> a / 2 ^ 53" using assms by linarith+
  have "a * (1 - 1 / 2 ^ 53) = a - a / 2 ^ 53" by (simp only: right_diff_distrib mult_1_right times_divide_eq_right)
  with d(2) show "a * (1 - 1 / 2 ^ 53) \<le> v" by linarith
  have "a * (1 + 1 / 2 ^ 53) = a + a / 2 ^ 53" by (simp only: distrib_left mult_1_right times_divide_eq_right)
  with d(1) show "v \<le> a * (1 + 1 / 2 ^ 53)" by linarith
qed

lemma quotient_near_exact:
  fixes n :: nat and wr :: rat
  assumes n: "1 \<le> n" "n < 2 ^ 53" and w: "1 \<le> wr" "wr \<le> 2 ^ 53"
  shows "\<exists>q. js_div (Fin wr) (js_mul (Fin (of_nat n)) (round_double (45 / 100))) = Fin q
    \<and> \<bar>q - wr / (of_nat n * (45 / 100))\<bar> \<le> (wr / (of_nat n * (45 / 100))) / 2 ^ 51"
proof -
  define c :: rat where "c = 8106479329266893 / 18014398509481984"
  define N :: rat where "N = of_nat n"
  have N: "1 \<le> N" "N < 2 ^ 53"
    using n unfolding N_def by (simp_all add: of_nat_less_numeral_power_cancel_iff)
  define x where "x = N * c"
  have c_bounds: "1 / 4 \<le> c" "c \<le> 1 / 2" by (simp_all add: c_def)
  have x_lo: "1 / 4 \<le> x"
  proof -
    have "1 / 4 \<le> 1 * c" using c_bounds by simp
    also have "\<dots> \<le> N * c" using N(1) c_bounds by (intro mult_right_mono) simp_all
    finally show ?thesis by (simp add: x_def)
  qed
  have x_hi: "x \<le> 2 ^ 52"
  proof -
    have "N * c \<le> 2 ^ 53 * (1 / 2)" using N c_bounds by (intro mult_mono) simp_all
    then show ?thesis by (simp add: x_def)
  qed
  have small: "(2::rat) powi (- 1022) \<le> 1 / 2 ^ 60"
  proof -
    have "(2::rat) powi (- 1022) \<le> 2 powi (- 60)" by (intro power_int_increasing) simp_all
    then show ?thesis by (simp add: power_int_minus field_simps)
  qed
  have big: "(2::rat) ^ 60 \<le> 2 powi 1023"
  proof -
    have "(2::rat) powi 60 \<le> 2 powi 1023" by (intro power_int_increasing) simp_all
    then show ?thesis by simp
  qed
  have "2 powi (- 1022) \<le> x" using small x_lo by simp
  moreover have "x \<le> 2 powi 1023" using big x_hi by simp
  ultimately obtain p where p: "round_double x = Fin p" "0 < p" "\<bar>p - x\<bar> \<le> x / 2 ^ 53"
    using round_double_error by blast
  have mul: "js_mul (Fin (of_nat n)) (round_double (45 / 100)) = Fin p"
    using N(1) c_bounds p(1)
    by (simp add: round_double_0_45 js_mul_def x_def N_def c_def)
  have pb: "x * (1 - 1 / 2 ^ 53) \<le> p" "p \<le> x * (1 + 1 / 2 ^ 53)"
    using rel_error_bounds [OF p(3)] by simp_all
  have xpos: "0 < x" using x_lo by simp
  define y where "y = wr / p"
  have p_lo: "1 / 8 \<le> p"
  proof -
    have "1 / 8 \<le> (1 / 4) * (1 - 1 / 2 ^ 53 :: rat)" by simp
    also have "\<dots> \<le> x * (1 - 1 / 2 ^ 53)" using x_lo by (intro mult_right_mono) simp_all
    finally show ?thesis using pb(1) by simp
  qed
  have p_hi: "p \<le> 2 ^ 53"
  proof -
    have "x * (1 + 1 / 2 ^ 53) \<le> 2 ^ 52 * (1 + 1 / 2 ^ 53 :: rat)"
      using x_hi by (intro mult_right_mono) simp_all
    also have "\<dots> \<le> 2 ^ 53" by simp
    finally show ?thesis using pb(2) by simp
  qed
  have y_lo: "1 / 2 ^ 53 \<le> y"
  proof -
    have "1 / 2 ^ 53 \<le> 1 / p" using p(2) p_hi by (intro divide_left_mono) simp_all
    also have "\<dots> \<le> wr / p" using w(1) p(2) by (intro divide_right_mono) simp_all
    finally show ?thesis by (simp add: y_def)
  qed
  have y_hi: "y \<le> 2 ^ 56"
  proof -
    have "wr / p \<le> 2 ^ 53 / p" using w(2) p(2) by (intro divide_right_mono) simp_all
    also have "\<dots> \<le> 2 ^ 53 / (1 / 8)" using p_lo by (intro divide_left_mono) simp_all
    finally show ?thesis by (simp add: y_def)
  qed
  have "2 powi (- 1022) \<le> y" using small y_lo by simp
  moreover have "y \<le> 2 powi 1023" using big y_hi by simp
  ultimately obtain q where q: "round_double y = Fin q" "0 < q" "\<bar>q - y\<bar> \<le> y / 2 ^ 53"
    using round_double_error by blast
  have div: "js_div (Fin wr) (Fin p) = Fin q"
    using w(1) p(2) q(1) by (simp add: js_div_def y_def)
  have qb: "y * (1 - 1 / 2 ^ 53) \<le> q" "q \<le> y * (1 + 1 / 2 ^ 53)"
    using rel_error_bounds [OF q(3)] by simp_all
  define E where "E = wr / (N * (45 / 100))"
  have wpos: "0 < wr" using w(1) by simp
  have Npos: "0 < N" using N(1) by simp
  have Epos: "0 < E" using wpos Npos by (simp add: E_def)
  have upper: "q \<le> E * (1 + 1 / 2 ^ 51)"
  proof -
    have "y \<le> wr / (x * (1 - 1 / 2 ^ 53))"
      unfolding y_def using pb(1) xpos wpos by (intro divide_left_mono) simp_all
    then have "y * (1 + 1 / 2 ^ 53) \<le> wr / (x * (1 - 1 / 2 ^ 53)) * (1 + 1 / 2 ^ 53)"
      by (intro mult_right_mono) simp_all
    also have "\<dots> = E * ((45 / 100) * (1 + 1 / 2 ^ 53) / (c * (1 - 1 / 2 ^ 53)))"
      using Npos by (simp add: E_def x_def c_def)
    also have "\<dots> \<le> E * (1 + 1 / 2 ^ 51)"
      using Epos by (intro mult_left_mono) (simp_all add: c_def)
    finally show ?thesis using qb(2) by simp
  qed
  have lower: "E * (1 - 1 / 2 ^ 51) \<le> q"
  proof -
    have "wr / (x * (1 + 1 / 2 ^ 53)) \<le> y"
      unfolding y_def using pb(2) p(2) wpos by (intro divide_left_mono) simp_all
    then have "wr / (x * (1 + 1 / 2 ^ 53)) * (1 - 1 / 2 ^ 53) \<le> y * (1 - 1 / 2 ^ 53)"
      by (intro mult_right_mono) simp_all
    moreover have "wr / (x * (1 + 1 / 2 ^ 53)) * (1 - 1 / 2 ^ 53)
        = E * ((45 / 100) * (1 - 1 / 2 ^ 53) / (c * (1 + 1 / 2 ^ 53)))"
      using Npos by (simp add: E_def x_def c_def)
    moreover have "E * (1 - 1 / 2 ^ 51) \<le> E * ((45 / 100) * (1 - 1 / 2 ^ 53) / (c * (1 + 1 / 2 ^ 53)))"
      using Epos by (intro mult_left_mono) (simp_all add: c_def)
    ultimately show ?thesis using qb(1) by linarith
  qed
  have u': "q \<le> E + E / 2 ^ 51"
    using upper by (simp only: distrib_left mult_1_right times_divide_eq_right)
  have l': "E - E / 2 ^ 51 \<le> q"
    using lower by (simp only: right_diff_distrib mult_1_right times_divide_eq_right)
  have "q - E \<le> E / 2 ^ 51" using u' by (simp only: diff_le_eq add.commute)
  moreover have "- (q - E) \<le> E / 2 ^ 51" using l' by (simp only: minus_diff_eq diff_le_eq add.commute)
  ultimately have "\<bar>q - E\<bar> \<le> E / 2 ^ 51" by (rule abs_leI)
  with mul div show ?thesis by (auto simp: E_def N_def)
qed

lemma getFontSize_7:
  assumes "length t = 7"
  shows "getFontSize t (Fin 140) (Fin 40) = Fin 40"
  using assms
  by (simp add: getFontSize_def round_double_0_45 js_mul_7 js_div_140 Math_min_def)

text \<open>
  On finite numbers \<open>Math.min\<close> is the minimum; a text of eight characters on the count
  line is past the cap: its size is the double 38.888888888888886.
\<close>

lemma Math_min_Fin: "Math_min (Fin a) (Fin b) = Fin (min a b)"
  by (simp add: Math_min_def min_def)

lemma js_mul_8:
  "js_mul (Fin 8) (Fin (8106479329266893 / 18014398509481984))
    = Fin (8106479329266893 / 2251799813685248)"
proof -
  have "floor_log 2 (8106479329266893 / 2251799813685248) = 1" by (simp add: floor_log_eval)
  then have "round_double (8106479329266893 / 2251799813685248)
      = Fin (8106479329266893 / 2251799813685248)"
    unfolding round_double_def Let_def
    by (simp add: pow_def round_half_even_def Let_def floor_rat_numeral)
  then show ?thesis by (simp add: js_mul_def)
qed

lemma js_div_140_8:
  "js_div (Fin 140) (Fin (8106479329266893 / 2251799813685248))
    = Fin (1368281136787911 / 35184372088832)"
proof -
  have "floor_log 2 (315251973915934720 / 8106479329266893) = 5" by (simp add: floor_log_eval)
  then have "round_double (315251973915934720 / 8106479329266893)
      = Fin (1368281136787911 / 35184372088832)"
    unfolding round_double_def Let_def
    by (simp add: pow_def round_half_even_def Let_def floor_rat_numeral)
  then show ?thesis by (simp add: js_div_def)
qed

lemma getFontSize_8:
  assumes "length t = 8"
  shows "getFontSize t (Fin 140) (Fin 40) = Fin (1368281136787911 / 35184372088832)"
  using assms
  by (simp add: getFontSize_def round_double_0_45 js_mul_8 js_div_140_8 Math_min_def)

lemma getFontSize_near_exact:
  fixes wr mr :: rat
  assumes "1 \<le> length t" "length t < 2 ^ 53" "1 \<le> wr" "wr \<le> 2 ^ 53"
  shows "\<exists>q. \<bar>q - wr / (of_nat (length t) * (45 / 100))\<bar>
            \<le> (wr / (of_nat (length t) * (45 / 100))) / 2 ^ 51
      \<and> (\<forall>m. getFontSize t (Fin wr) m = Math_min (Fin q) m)
      \<and> (\<forall>mr. getFontSize t (Fin wr) (Fin mr) = Fin (min q mr))"
proof -
  from quotient_near_exact [OF assms]
  obtain q where q:
    "js_div (Fin wr) (js_mul (Fin (of_nat (length t))) (round_double (45 / 100))) = Fin q"
    "\<bar>q - wr / (of_nat (length t) * (45 / 100))\<bar>
        \<le> (wr / (of_nat (length t) * (45 / 100))) / 2 ^ 51"
    by blast
  have "getFontSize t (Fin wr) m = Math_min (Fin q) m" for m
    unfolding getFontSize_def q(1) ..
  then show ?thesis using q(2) by (auto simp: Math_min_Fin)
qed

text \<open>
  C8. The size of a line is \<open>Math.min(maxWidth / (text.length * 0.45), maxFontSize)\<close> in the
  arithmetic of doubles, and the icon is drawn with this size for the count line (width 140,
  at most 40) and for the label line (width 140, at most 28). On finite numbers \<open>Math.min\<close>
  is the minimum, so for a text of 1 to \<open>2^53\<close> characters, a width between 1 and \<open>2^53\<close>
  and a finite maximum \<open>m\<close> the size is \<open>min q m\<close>, where the double \<open>q\<close> is within the
  \<open>2^-51\<close>-th part of the exact quotient \<open>w / (n * 0.45)\<close>. For a text of length 7, width
  140 and maximum 40 the quotient is the double 44.44444444444444, above 40, and the size
  is 40 exactly; for a text of length 8 the quotient is the double 38.888888888888886,
  below 40, and is the size.
\<close>

theorem getFontSize_formula:
  \<open>getFontSize t w m =
     Math_min (js_div w (js_mul (Fin (of_nat (length t))) (round_double (45 / 100)))) m
   \<and> getButtonSvg count s =
       ''<svg width="144" height="144" xmlns="http://www.w3.org/2000/svg">\<newline>''
       @ ''    <rect width="144" height="144" fill="'' @ getColor count s @ ''" />\<newline>''
       @ ''    <text x="72" y="72" dominant-baseline="middle" text-anchor="middle" fill="#000" font-size="''
       @ Number_toString
           (Math_min (js_div (Fin 140)
              (js_mul (Fin (of_nat (length (Number_toString count @ '' Tasks''))))
                 (round_double (45 / 100)))) (Fin 40))
       @ ''px" font-family="Tahoma">'' @ Number_toString count @ '' Tasks'' @ ''</text>\<newline>''
       @ ''    <text x="72" y="135" dominant-baseline="middle" text-anchor="middle" fill="#000" font-size="''
       @ Number_toString
           (Math_min (js_div (Fin 140)
              (js_mul (Fin (of_nat (length (item_name s)))) (round_double (45 / 100)))) (Fin 28))
       @ ''px" font-family="Tahoma">'' @ item_name s @ ''</text>\<newline>''
       @ ''    </svg>''
   \<and> Math_min (Fin a) (Fin b) = Fin (min a b)
   \<and> (1 \<le> length t \<and> length t < 2 ^ 53 \<and> 1 \<le> wr \<and> wr \<le> 2 ^ 53 \<longrightarrow>
        (\<exists>q. \<bar>q - wr / (of_nat (length t) * (45 / 100))\<bar>
               \<le> (wr / (of_nat (length t) * (45 / 100))) / 2 ^ 51
           \<and> getFontSize t (Fin wr) m = Math_min (Fin q) m
           \<and> getFontSize t (Fin wr) (Fin mr) = Fin (min q mr)))
   \<and> (length t = 7 \<longrightarrow>
        js_div (Fin 140) (js_mul (Fin (of_nat (length t))) (round_double (45 / 100)))
          = Fin (3127499741229511 / 70368744177664)
        \<and> (4444 / 100 :: rat) < 3127499741229511 / 70368744177664
        \<and> (3127499741229511 / 70368744177664 :: rat) < 4445 / 100
        \<and> getFontSize t (Fin 140) (Fin 40) = Fin 40)
   \<and> (length t = 8 \<longrightarrow>
        js_div (Fin 140) (js_mul (Fin (of_nat (length t))) (round_double (45 / 100)))
          = Fin (1368281136787911 / 35184372088832)
        \<and> (3888 / 100 :: rat) < 1368281136787911 / 35184372088832
        \<and> (1368281136787911 / 35184372088832 :: rat) < 3889 / 100
        \<and> getFontSize t (Fin 140) (Fin 40) = Fin (1368281136787911 / 35184372088832))\<close>
proof (intro conjI impI)
  show "getFontSize t w m =
     Math_min (js_div w (js_mul (Fin (of_nat (length t))) (round_double (45 / 100)))) m"
    by (simp only: getFontSize_def)
next
  show "Math_min (Fin a) (Fin b) = Fin (min a b)" by (rule Math_min_Fin)
next
  assume "1 \<le> length t \<and> length t < 2 ^ 53 \<and> 1 \<le> wr \<and> wr \<le> 2 ^ 53"
  then have "\<exists>q. \<bar>q - wr / (of_nat (length t) * (45 / 100))\<bar>
            \<le> (wr / (of_nat (length t) * (45 / 100))) / 2 ^ 51
      \<and> (\<forall>m. getFontSize t (Fin wr) m = Math_min (Fin q) m)
      \<and> (\<forall>mr. getFontSize t (Fin wr) (Fin mr) = Fin (min q mr))"
    by (intro getFontSize_near_exact) simp_all
  then show "\<exists>q. \<bar>q - wr / (of_nat (length t) * (45 / 100))\<bar>
               \<le> (wr / (of_nat (length t) * (45 / 100))) / 2 ^ 51
           \<and> getFontSize t (Fin wr) m = Math_min (Fin q) m
           \<and> getFontSize t (Fin wr) (Fin mr) = Fin (min q mr)"
    by blast
next
  assume "length t = 7"
  then show "js_div (Fin 140) (js_mul (Fin (of_nat (length t))) (round_double (45 / 100)))
      = Fin (3127499741229511 / 70368744177664)"
    by (simp add: round_double_0_45 js_mul_7 js_div_140)
next
  assume "length t = 7"
  then show "getFontSize t (Fin 140) (Fin 40) = Fin 40" by (rule getFontSize_7)
next
  assume "length t = 8"
  then show "js_div (Fin 140) (js_mul (Fin (of_nat (length t))) (round_double (45 / 100)))
      = Fin (1368281136787911 / 35184372088832)"
    by (simp add: round_double_0_45 js_mul_8 js_div_140_8)
next
  assume "length t = 8"
  then show "getFontSize t (Fin 140) (Fin 40) = Fin (1368281136787911 / 35184372088832)"
    by (rule getFontSize_8)
qed (simp_all add: getButtonSvg_def getFontSize_def Let_def)

text \<open>
  The count line \<open>5 Tasks\<close>: seven characters, size 40. The count line \<open>10 Tasks\<close>: eight
  characters, size 38.888888888888886, the minimum of 40 and a quotient within the
  \<open>2^-51\<close>-th part of \<open>140 / (8 * 0.45)\<close>.
\<close>

theorem getFontSize_formula_witness:
  "length ''5 Tasks'' = 7
   \<and> getFontSize ''5 Tasks'' (Fin 140) (Fin 40) = Fin 40
   \<and> length ''10 Tasks'' = 8
   \<and> getFontSize ''10 Tasks'' (Fin 140) (Fin 40) = Fin (1368281136787911 / 35184372088832)
   \<and> (\<exists>q. \<bar>q - 140 / (of_nat (length ''10 Tasks'') * (45 / 100))\<bar>
             \<le> (140 / (of_nat (length ''10 Tasks'') * (45 / 100))) / 2 ^ 51
         \<and> getFontSize ''10 Tasks'' (Fin 140) (Fin 40) = Math_min (Fin q) (Fin 40)
         \<and> getFontSize ''10 Tasks'' (Fin 140) (Fin 40) = Fin (min q 40))"
proof -
  have l: "length ''5 Tasks'' = 7" by simp
  have k: "length ''10 Tasks'' = 8" by simp
  have r: "1 \<le> length ''10 Tasks'' \<and> length ''10 Tasks'' < 2 ^ 53
      \<and> (1::rat) \<le> 140 \<and> (140::rat) \<le> 2 ^ 53"
    by simp
  note five = getFontSize_formula [where t = "''5 Tasks''"]
  note ten = getFontSize_formula [where t = "''10 Tasks''" and wr = 140 and m = "Fin 40" and mr = 40]
  from five [THEN conjunct2, THEN conjunct2, THEN conjunct2, THEN conjunct2, THEN conjunct1,
      rule_format, OF l]
  have a: "getFontSize ''5 Tasks'' (Fin 140) (Fin 40) = Fin 40" by blast
  from ten [THEN conjunct2, THEN conjunct2, THEN conjunct2, THEN conjunct2, THEN conjunct2,
      rule_format, OF k]
  have b: "getFontSize ''10 Tasks'' (Fin 140) (Fin 40) = Fin (1368281136787911 / 35184372088832)"
    by blast
  from ten [THEN conjunct2, THEN conjunct2, THEN conjunct2, THEN conjunct1, rule_format, OF r]
  have c: "\<exists>q. \<bar>q - 140 / (of_nat (length ''10 Tasks'') * (45 / 100))\<bar>
             \<le> (140 / (of_nat (length ''10 Tasks'') * (45 / 100))) / 2 ^ 51
         \<and> getFontSize ''10 Tasks'' (Fin 140) (Fin 40) = Math_min (Fin q) (Fin 40)
         \<and> getFontSize ''10 Tasks'' (Fin 140) (Fin 40) = Fin (min q 40)" .
  from l a k b c show ?thesis by blast
qed

text \<open>
  C10. With an empty label the product \<open>text.length * 0.45\<close> is zero, the quotient of 140 by
  it is \<open>Infinity\<close>, \<open>Math.min\<close> takes the maximum 28 of the label line, and the icon is the
  usual markup: the root element, the rectangle, the count line, and a label line of font
  size \<open>28px\<close> with no text.
\<close>

theorem getButtonSvg_empty_label:
  \<open>js_mul (Fin (of_nat (length ([] :: string)))) (round_double (45 / 100)) = Fin 0
   \<and> js_div (Fin 140) (Fin 0) = PosInf
   \<and> Math_min PosInf (Fin 28) = Fin 28
   \<and> getFontSize [] (Fin 140) (Fin 28) = Fin 28
   \<and> getButtonSvg count (s\<lparr>item_name := []\<rparr>) =
       ''<svg width="144" height="144" xmlns="http://www.w3.org/2000/svg">\<newline>''
       @ ''    <rect width="144" height="144" fill="'' @ getColor count s @ ''" />\<newline>''
       @ ''    <text x="72" y="72" dominant-baseline="middle" text-anchor="middle" fill="#000" font-size="''
       @ Number_toString (getFontSize (Number_toString count @ '' Tasks'') (Fin 140) (Fin 40))
       @ ''px" font-family="Tahoma">'' @ Number_toString count @ '' Tasks'' @ ''</text>\<newline>''
       @ ''    <text x="72" y="135" dominant-baseline="middle" text-anchor="middle" fill="#000" font-size="28px" font-family="Tahoma"></text>\<newline>''
       @ ''    </svg>''\<close>
proof (intro conjI)
  show "js_mul (Fin (of_nat (length ([] :: string)))) (round_double (45 / 100)) = Fin 0"
    by (simp add: round_double_0_45 js_mul_def signed_zero_def)
  show "js_div (Fin 140) (Fin 0) = PosInf"
    by (simp add: js_div_def signed_inf_def)
  show "Math_min PosInf (Fin 28) = Fin 28"
    by (simp add: Math_min_def)
  show "getFontSize [] (Fin 140) (Fin 28) = Fin 28"
    by (rule getFontSize_empty)
  have c: "getColor count (s\<lparr>item_name := []\<rparr>) = getColor count s"
    by (simp add: getColor_def)
  show \<open>getButtonSvg count (s\<lparr>item_name := []\<rparr>) =
       ''<svg width="144" height="144" xmlns="http://www.w3.org/2000/svg">\<newline>''
       @ ''    <rect width="144" height="144" fill="'' @ getColor count s @ ''" />\<newline>''
       @ ''    <text x="72" y="72" dominant-baseline="middle" text-anchor="middle" fill="#000" font-size="''
       @ Number_toString (getFontSize (Number_toString count @ '' Tasks'') (Fin 140) (Fin 40))
       @ ''px" font-family="Tahoma">'' @ Number_toString count @ '' Tasks'' @ ''</text>\<newline>''
       @ ''    <text x="72" y="135" dominant-baseline="middle" text-anchor="middle" fill="#000" font-size="28px" font-family="Tahoma"></text>\<newline>''
       @ ''    </svg>''\<close>
    unfolding getButtonSvg_def Let_def c
    by (simp add: getFontSize_empty positive_toString_28)
qed

text \<open>The icon of five tasks under a blank configuration with an empty label.\<close>

theorem getButtonSvg_empty_label_witness:
  \<open>getButtonSvg (Fin 5) (blank\<lparr>item_name := []\<rparr>) =
     ''<svg width="144" height="144" xmlns="http://www.w3.org/2000/svg">\<newline>''
     @ ''    <rect width="144" height="144" fill="white" />\<newline>''
     @ ''    <text x="72" y="72" dominant-baseline="middle" text-anchor="middle" fill="#000" font-size="40px" font-family="Tahoma">5 Tasks</text>\<newline>''
     @ ''    <text x="72" y="135" dominant-baseline="middle" text-anchor="middle" fill="#000" font-size="28px" font-family="Tahoma"></text>\<newline>''
     @ ''    </svg>''\<close>
proof -
  have c: "getColor (Fin 5) blank = ''white''"
    by (simp add: getColor_def blank_def)
  have t: "Number_toString (Fin 5) = ''5''"
    by (simp add: positive_toString_5)
  have f: "getFontSize ''5 Tasks'' (Fin 140) (Fin 40) = Fin 40"
    by (rule getFontSize_7) simp
  have u: "Number_toString (Fin 40) = ''40''"
    by (simp add: positive_toString_40)
  from getButtonSvg_empty_label [of "Fin 5" blank]
  have \<open>getButtonSvg (Fin 5) (blank\<lparr>item_name := []\<rparr>) =
       ''<svg width="144" height="144" xmlns="http://www.w3.org/2000/svg">\<newline>''
       @ ''    <rect width="144" height="144" fill="'' @ getColor (Fin 5) blank @ ''" />\<newline>''
       @ ''    <text x="72" y="72" dominant-baseline="middle" text-anchor="middle" fill="#000" font-size="''
       @ Number_toString (getFontSize (Number_toString (Fin 5) @ '' Tasks'') (Fin 140) (Fin 40))
       @ ''px" font-family="Tahoma">'' @ Number_toString (Fin 5) @ '' Tasks'' @ ''</text>\<newline>''
       @ ''    <text x="72" y="135" dominant-baseline="middle" text-anchor="middle" fill="#000" font-size="28px" font-family="Tahoma"></text>\<newline>''
       @ ''    </svg>''\<close>
    by blast
  then show ?thesis
    unfolding c t by (simp only: append.simps f u)
qed

end
